theory Spec2Isabelle
  imports Complex_Main "HOL-Library.Sublist"
begin

section \<open>The recurring-task scheduler of \<^verbatim>\<open>elohim.py\<close>\<close>

text \<open>
  The scheduler is the part of class \<^verbatim>\<open>Elohim\<close> made of \<^verbatim>\<open>schedule_task\<close> and
  \<^verbatim>\<open>_start_task_scheduler\<close> with its nested functions \<^verbatim>\<open>worker\<close> and \<^verbatim>\<open>run_task\<close>.
  It is a multi-threaded program, modelled as an interleaving of atomic steps: each step
  is taken by one thread (the submitting caller, a dispatcher worker, or a repeating
  loop), and what the environment decides (whether a thread can be started, how an
  action ends and how long it took) comes with the step's label.
\<close>

subsection \<open>Data\<close>

text \<open>A callable is known by its name; a queue item is the tuple \<^verbatim>\<open>(interval_sec, task_fn)\<close>.\<close>

type_synonym task_fn = string
type_synonym task = "rat \<times> task_fn"

text \<open>
  Exceptions, by the classes the handlers of the source tell apart. \<open>SystemExit\<close> stands
  for the exceptions that derive from \<^verbatim>\<open>BaseException\<close> but not from \<^verbatim>\<open>Exception\<close>.
\<close>

datatype py_exc =
    RuntimeError string
  | ValueError string
  | NameError string
  | OverflowError string
  | OSError string
  | Exception string
  | SystemExit string

fun is_Exception :: "py_exc \<Rightarrow> bool" where
  "is_Exception (SystemExit m) = False"
| "is_Exception (RuntimeError m) = True"
| "is_Exception (ValueError m) = True"
| "is_Exception (NameError m) = True"
| "is_Exception (OverflowError m) = True"
| "is_Exception (OSError m) = True"
| "is_Exception (Exception m) = True"

fun exc_msg :: "py_exc \<Rightarrow> string" where
  "exc_msg (RuntimeError m) = m"
| "exc_msg (ValueError m) = m"
| "exc_msg (NameError m) = m"
| "exc_msg (OverflowError m) = m"
| "exc_msg (OSError m) = m"
| "exc_msg (Exception m) = m"
| "exc_msg (SystemExit m) = m"

text \<open>How one call \<^verbatim>\<open>task_fn()\<close> ends.\<close>

datatype outcome = Returns | Raises py_exc

text \<open>
  A dispatcher thread runs one activation of \<^verbatim>\<open>worker\<close>. Its local variables
  \<^verbatim>\<open>interval\<close> and \<^verbatim>\<open>task_fn\<close> are free variables of the nested \<^verbatim>\<open>run_task\<close>, hence
  cells of that activation: every \<^verbatim>\<open>run_task\<close> closure created by the activation
  refers to the same two cells. They are unbound until the first \<^verbatim>\<open>get()\<close> returns.
\<close>

record worker_thread =
  cells :: "task option"
  alive :: bool

text \<open>
  A thread running \<^verbatim>\<open>run_task\<close>: the worker whose cells its closure refers to, where it
  stands in the loop body, and two observation fields that the source does not hold:
  the time the thread has spent since it was started, and what it has done.
\<close>

datatype pc = AtCall | InCall | AtSleep | Dead

datatype event = Invoked task_fn rat | Slept rat

record run_task_thread =
  owner :: nat
  pc :: pc
  clock :: rat
  history :: "event list"

text \<open>
  The scheduler's part of an \<^verbatim>\<open>Elohim\<close> object, with the threads it has started, the
  records written by \<^verbatim>\<open>logging.error\<close>, the items handed out by \<^verbatim>\<open>get()\<close> so far
  (an observation field), and the exception that reached a caller of \<^verbatim>\<open>schedule_task\<close>.
\<close>

record elohim =
  task_queue :: "task list"
  max_worker_threads :: nat
  scheduler_started :: bool
  workers :: "worker_thread list"
  loops :: "run_task_thread list"
  error_log :: "string list"
  delivered :: "(nat \<times> task) list"
  crashed :: "py_exc option"

text \<open>The fields as \<^verbatim>\<open>__init__\<close> sets them.\<close>

definition init_elohim :: elohim where
  "init_elohim =
     \<lparr>task_queue = [], max_worker_threads = 5, scheduler_started = False,
      workers = [], loops = [], error_log = [], delivered = [], crashed = None\<rparr>"

subsection \<open>Library calls\<close>

text \<open>
  \<^verbatim>\<open>threading.Thread(target=..., daemon=True).start()\<close>: the environment says whether
  the runtime can start one more thread; when it cannot, \<^verbatim>\<open>start\<close> raises
  \<^verbatim>\<open>RuntimeError\<close> with the given message.
\<close>

definition Thread_start :: "string option \<Rightarrow> 'a \<Rightarrow> 'a list \<Rightarrow> py_exc + 'a list" where
  "Thread_start res th ths =
     (case res of None \<Rightarrow> Inr (ths @ [th]) | Some m \<Rightarrow> Inl (RuntimeError m))"

text \<open>
  \<^verbatim>\<open>time.sleep(secs)\<close> converts its argument to a signed 64-bit count of nanoseconds
  and raises \<^verbatim>\<open>OverflowError\<close> when it does not fit, so above \<open>pytime_max\<close> seconds; it
  raises \<^verbatim>\<open>ValueError\<close> on a negative argument. A duration in range can still be refused
  by the operating system, which cannot represent a deadline that far from now (on
  Linux a sleep of 9223372036 seconds ends in \<^verbatim>\<open>OSError\<close>); whether it accepts the
  duration is the environment's answer.
\<close>

definition pytime_max :: rat where
  "pytime_max = 9223372036854775807 / 1000000000"

definition time_sleep :: "bool \<Rightarrow> rat \<Rightarrow> py_exc + rat" where
  "time_sleep accepted secs =
     (if secs < 0 then Inl (ValueError ''sleep length must be non-negative'')
      else if pytime_max < secs
        then Inl (OverflowError ''timestamp too large to convert to C _PyTime_t'')
      else if accepted then Inr secs
      else Inl (OSError ''[Errno 22] Invalid argument''))"

subsection \<open>\<^verbatim>\<open>_start_task_scheduler\<close> and \<^verbatim>\<open>schedule_task\<close>\<close>

text \<open>
  A function that can raise returns the exception, if any, with the state reached.
  \<open>spawn_worker\<close> is the body of the \<^verbatim>\<open>for\<close> loop of \<^verbatim>\<open>_start_task_scheduler\<close>, with
  its \<^verbatim>\<open>try\<close>/\<^verbatim>\<open>except RuntimeError\<close>.
\<close>

definition spawn_worker :: "string option \<Rightarrow> elohim \<Rightarrow> py_exc option \<times> elohim" where
  "spawn_worker res s =
     (case Thread_start res \<lparr>cells = None, alive = True\<rparr> (workers s) of
        Inr ws \<Rightarrow> (None, s\<lparr>workers := ws\<rparr>)
      | Inl e \<Rightarrow>
          (case e of
             RuntimeError m \<Rightarrow>
               (None, s\<lparr>error_log := error_log s @ [''Worker thread failed to start: '' @ m]\<rparr>)
           | ValueError m \<Rightarrow> (Some e, s)
           | NameError m \<Rightarrow> (Some e, s)
           | OverflowError m \<Rightarrow> (Some e, s)
           | OSError m \<Rightarrow> (Some e, s)
           | Exception m \<Rightarrow> (Some e, s)
           | SystemExit m \<Rightarrow> (Some e, s)))"

primrec spawn_workers :: "nat list \<Rightarrow> (nat \<Rightarrow> string option) \<Rightarrow> elohim \<Rightarrow> py_exc option \<times> elohim" where
  "spawn_workers [] r s = (None, s)"
| "spawn_workers (i # js) r s =
     (case spawn_worker (r i) s of
        (None, s') \<Rightarrow> spawn_workers js r s'
      | (Some e, s') \<Rightarrow> (Some e, s'))"

definition start_task_scheduler :: "(nat \<Rightarrow> string option) \<Rightarrow> elohim \<Rightarrow> py_exc option \<times> elohim" where
  "start_task_scheduler r s = spawn_workers [0..<max_worker_threads s] r s"

text \<open>
  \<^verbatim>\<open>schedule_task\<close>, called by one thread at a time. \<^verbatim>\<open>queue.Queue()\<close> is unbounded, so
  \<^verbatim>\<open>put\<close> appends and returns. \<open>r i\<close> is the environment's answer to the \<open>i\<close>-th attempt
  to start a worker thread.
\<close>

definition schedule_task ::
  "rat \<Rightarrow> task_fn \<Rightarrow> (nat \<Rightarrow> string option) \<Rightarrow> elohim \<Rightarrow> py_exc option \<times> elohim" where
  "schedule_task interval_sec task_fn r s =
     (let s1 = s\<lparr>task_queue := task_queue s @ [(interval_sec, task_fn)]\<rparr> in
      if \<not> scheduler_started s1
      then start_task_scheduler r (s1\<lparr>scheduler_started := True\<rparr>)
      else (None, s1))"

subsection \<open>\<^verbatim>\<open>worker\<close>\<close>

text \<open>
  One iteration of the \<^verbatim>\<open>while True\<close> of \<^verbatim>\<open>worker\<close>, run by dispatcher thread \<open>w\<close>:
  \<^verbatim>\<open>get()\<close> takes the head of the queue (on an empty queue the thread stays blocked),
  the tuple is stored into the activation's two cells, and a thread is started on the
  new \<^verbatim>\<open>run_task\<close> closure, which refers to those cells.
\<close>

definition worker :: "nat \<Rightarrow> string option \<Rightarrow> elohim \<Rightarrow> py_exc option \<times> elohim" where
  "worker w res s =
     (case task_queue s of
        [] \<Rightarrow> (None, s)
      | t # q \<Rightarrow>
          (let s1 = s\<lparr>task_queue := q,
                      workers := (workers s)[w := (workers s ! w)\<lparr>cells := Some t\<rparr>],
                      delivered := delivered s @ [(w, t)]\<rparr>
           in case Thread_start res \<lparr>owner = w, pc = AtCall, clock = 0, history = []\<rparr> (loops s1) of
                Inr ls \<Rightarrow> (None, s1\<lparr>loops := ls\<rparr>)
              | Inl e \<Rightarrow>
                  (case e of
                     RuntimeError m \<Rightarrow>
                       (None, s1\<lparr>error_log := error_log s1 @ [''Thread limit reached: '' @ m]\<rparr>)
                   | ValueError m \<Rightarrow> (Some e, s1)
                   | NameError m \<Rightarrow> (Some e, s1)
                   | OverflowError m \<Rightarrow> (Some e, s1)
                   | OSError m \<Rightarrow> (Some e, s1)
                   | Exception m \<Rightarrow> (Some e, s1)
                   | SystemExit m \<Rightarrow> (Some e, s1))))"

subsection \<open>\<^verbatim>\<open>run_task\<close>\<close>

definition update_loop :: "nat \<Rightarrow> (run_task_thread \<Rightarrow> run_task_thread) \<Rightarrow> elohim \<Rightarrow> elohim" where
  "update_loop l g s = s\<lparr>loops := (loops s)[l := g (loops s ! l)]\<rparr>"

definition read_cells :: "elohim \<Rightarrow> nat \<Rightarrow> task option" where
  "read_cells s w = (if w < length (workers s) then cells (workers s ! w) else None)"

text \<open>
  The body of the \<^verbatim>\<open>while True\<close> of \<^verbatim>\<open>run_task\<close>, in three steps of loop thread \<open>l\<close>.
  \<open>run_task_call\<close> reads the cell \<^verbatim>\<open>task_fn\<close> and enters the call. The read is inside the
  \<^verbatim>\<open>try\<close>: on an unbound cell it raises \<^verbatim>\<open>NameError\<close>, which the handler logs, and the
  thread goes on to \<^verbatim>\<open>time.sleep\<close>.
\<close>

definition run_task_call :: "nat \<Rightarrow> elohim \<Rightarrow> elohim" where
  "run_task_call l s =
     (case read_cells s (owner (loops s ! l)) of
        None \<Rightarrow>
          (update_loop l (\<lambda>t. t\<lparr>pc := AtSleep\<rparr>) s)
            \<lparr>error_log := error_log s @
               [''Scheduled task error: cannot access free variable task_fn where it is '' @
                ''not associated with a value in enclosing scope'']\<rparr>
      | Some (iv, f) \<Rightarrow>
          update_loop l (\<lambda>t. t\<lparr>pc := InCall, history := history t @ [Invoked f (clock t)]\<rparr>) s)"

text \<open>
  \<open>run_task_return\<close>: the call ends after \<open>d\<close> time units. \<^verbatim>\<open>except Exception\<close> catches
  and logs the exceptions of class \<^verbatim>\<open>Exception\<close>; any other ends the thread.
\<close>

definition run_task_return :: "nat \<Rightarrow> outcome \<Rightarrow> rat \<Rightarrow> elohim \<Rightarrow> elohim" where
  "run_task_return l out d s =
     (let s1 = update_loop l (\<lambda>t. t\<lparr>clock := clock t + d\<rparr>) s in
      case out of
        Returns \<Rightarrow> update_loop l (\<lambda>t. t\<lparr>pc := AtSleep\<rparr>) s1
      | Raises e \<Rightarrow>
          if is_Exception e
          then (update_loop l (\<lambda>t. t\<lparr>pc := AtSleep\<rparr>) s1)
                 \<lparr>error_log := error_log s1 @ [''Scheduled task error: '' @ exc_msg e]\<rparr>
          else update_loop l (\<lambda>t. t\<lparr>pc := Dead\<rparr>) s1)"

text \<open>
  \<open>run_task_sleep\<close>: \<^verbatim>\<open>time.sleep(interval)\<close> reads the cell \<^verbatim>\<open>interval\<close>; it is outside
  the \<^verbatim>\<open>try\<close>, so the \<^verbatim>\<open>NameError\<close> of an unbound cell and every exception of
  \<^verbatim>\<open>time.sleep\<close> end the thread.
\<close>

definition run_task_sleep :: "bool \<Rightarrow> nat \<Rightarrow> elohim \<Rightarrow> elohim" where
  "run_task_sleep accepted l s =
     (case read_cells s (owner (loops s ! l)) of
        None \<Rightarrow> update_loop l (\<lambda>t. t\<lparr>pc := Dead\<rparr>) s
      | Some (iv, f) \<Rightarrow>
          (case time_sleep accepted iv of
             Inl e \<Rightarrow> update_loop l (\<lambda>t. t\<lparr>pc := Dead\<rparr>) s
           | Inr secs \<Rightarrow>
               update_loop l
                 (\<lambda>t. t\<lparr>pc := AtCall, clock := clock t + secs, history := history t @ [Slept secs]\<rparr>) s))"

subsection \<open>Interleaving\<close>

text \<open>
  A label names the thread that moves and carries the environment's part of the step.
  \<open>Sleep\<close> is a call of \<^verbatim>\<open>time.sleep\<close> whose duration the operating system accepts,
  \<open>SleepRefused\<close> one whose duration it refuses.
  A label whose thread cannot move (it does not exist, has ended, or is at another
  statement) leaves the state as it is. An exception that leaves \<^verbatim>\<open>schedule_task\<close>
  reaches its caller, and \<open>crashed\<close> records it; one that leaves \<^verbatim>\<open>worker\<close> ends that
  dispatcher thread.
\<close>

datatype label =
    Submit rat task_fn "nat \<Rightarrow> string option"
  | Worker nat "string option"
  | CallStart nat
  | CallEnd nat outcome rat
  | Sleep nat
  | SleepRefused nat

fun step :: "label \<Rightarrow> elohim \<Rightarrow> elohim" where
  "step (Submit iv f r) s =
     (case schedule_task iv f r s of
        (None, s') \<Rightarrow> s'
      | (Some e, s') \<Rightarrow> s'\<lparr>crashed := Some e\<rparr>)"
| "step (Worker w res) s =
     (if w < length (workers s) \<and> alive (workers s ! w)
      then (case worker w res s of
              (None, s') \<Rightarrow> s'
            | (Some e, s') \<Rightarrow> s'\<lparr>workers := (workers s')[w := (workers s' ! w)\<lparr>alive := False\<rparr>]\<rparr>)
      else s)"
| "step (CallStart l) s =
     (if l < length (loops s) \<and> pc (loops s ! l) = AtCall then run_task_call l s else s)"
| "step (CallEnd l out d) s =
     (if l < length (loops s) \<and> pc (loops s ! l) = InCall then run_task_return l out d s else s)"
| "step (Sleep l) s =
     (if l < length (loops s) \<and> pc (loops s ! l) = AtSleep then run_task_sleep True l s else s)"
| "step (SleepRefused l) s =
     (if l < length (loops s) \<and> pc (loops s ! l) = AtSleep then run_task_sleep False l s else s)"

text \<open>Running a schedule; nothing moves once the process has crashed.\<close>

fun execute :: "label list \<Rightarrow> elohim \<Rightarrow> elohim" where
  "execute [] s = s"
| "execute (a # as) s = (if crashed s = None then execute as (step a s) else s)"

text \<open>The submissions of a schedule, in order.\<close>

fun submissions :: "label list \<Rightarrow> task list" where
  "submissions [] = []"
| "submissions (Submit iv f r # as) = (iv, f) # submissions as"
| "submissions (a # as) = submissions as"











text \<open>An environment that gives the same answer every time.\<close>

definition always :: "'a \<Rightarrow> nat \<Rightarrow> 'a" where
  "always x i = x"

section \<open>What the functions compute\<close>

text \<open>
  Each function that can raise is first reduced to the state it returns: the only
  exception the environment produces inside \<^verbatim>\<open>schedule_task\<close> and \<^verbatim>\<open>worker\<close> is the
  \<^verbatim>\<open>RuntimeError\<close> of \<^verbatim>\<open>Thread.start\<close>, and both handlers catch it.
\<close>

lemma spawn_worker_eq:
  "spawn_worker res s =
     (None,
      s\<lparr>workers := workers s @ (case res of None \<Rightarrow> [\<lparr>cells = None, alive = True\<rparr>] | Some m \<Rightarrow> []),
        error_log := error_log s @
          (case res of None \<Rightarrow> [] | Some m \<Rightarrow> [''Worker thread failed to start: '' @ m])\<rparr>)"
  by (cases res) (simp_all add: spawn_worker_def Thread_start_def)

lemma spawn_workers_eq:
  "spawn_workers js r s =
     (None,
      s\<lparr>workers := workers s @
          concat (map (\<lambda>i. case r i of None \<Rightarrow> [\<lparr>cells = None, alive = True\<rparr>] | Some m \<Rightarrow> []) js),
        error_log := error_log s @
          concat (map (\<lambda>i. case r i of None \<Rightarrow> []
                              | Some m \<Rightarrow> [''Worker thread failed to start: '' @ m]) js)\<rparr>)"
  by (induction js arbitrary: s) (simp_all add: spawn_worker_eq)

lemma schedule_task_eq:
  "schedule_task iv f r s =
     (None,
      if scheduler_started s then s\<lparr>task_queue := task_queue s @ [(iv, f)]\<rparr>
      else s\<lparr>task_queue := task_queue s @ [(iv, f)], scheduler_started := True,
             workers := workers s @
               concat (map (\<lambda>i. case r i of None \<Rightarrow> [\<lparr>cells = None, alive = True\<rparr>] | Some m \<Rightarrow> [])
                         [0..<max_worker_threads s]),
             error_log := error_log s @
               concat (map (\<lambda>i. case r i of None \<Rightarrow> []
                                   | Some m \<Rightarrow> [''Worker thread failed to start: '' @ m])
                         [0..<max_worker_threads s])\<rparr>)"
  by (simp add: schedule_task_def start_task_scheduler_def spawn_workers_eq Let_def)

lemma worker_eq:
  "worker w res s =
     (None,
      case task_queue s of
        [] \<Rightarrow> s
      | t # q \<Rightarrow>
          s\<lparr>task_queue := q,
            workers := (workers s)[w := (workers s ! w)\<lparr>cells := Some t\<rparr>],
            delivered := delivered s @ [(w, t)],
            loops := loops s @
              (case res of None \<Rightarrow> [\<lparr>owner = w, pc = AtCall, clock = 0, history = []\<rparr>]
               | Some m \<Rightarrow> []),
            error_log := error_log s @
              (case res of None \<Rightarrow> [] | Some m \<Rightarrow> [''Thread limit reached: '' @ m])\<rparr>)"
  by (cases res; cases "task_queue s") (simp_all add: worker_def Thread_start_def Let_def)

lemmas loop_defs = run_task_call_def run_task_return_def run_task_sleep_def update_loop_def
  read_cells_def time_sleep_def pytime_max_def

text \<open>The steps of a repeating loop touch nothing but the list of loops and the log.\<close>

lemma loop_steps_frame:
  "task_queue (run_task_call l s) = task_queue s"
  "task_queue (run_task_return l out d s) = task_queue s"
  "task_queue (run_task_sleep b l s) = task_queue s"
  "delivered (run_task_call l s) = delivered s"
  "delivered (run_task_return l out d s) = delivered s"
  "delivered (run_task_sleep b l s) = delivered s"
  "workers (run_task_call l s) = workers s"
  "workers (run_task_return l out d s) = workers s"
  "workers (run_task_sleep b l s) = workers s"
  "crashed (run_task_call l s) = crashed s"
  "crashed (run_task_return l out d s) = crashed s"
  "crashed (run_task_sleep b l s) = crashed s"
  "scheduler_started (run_task_call l s) = scheduler_started s"
  "scheduler_started (run_task_return l out d s) = scheduler_started s"
  "scheduler_started (run_task_sleep b l s) = scheduler_started s"
  "max_worker_threads (run_task_call l s) = max_worker_threads s"
  "max_worker_threads (run_task_return l out d s) = max_worker_threads s"
  "max_worker_threads (run_task_sleep b l s) = max_worker_threads s"
  "length (loops (run_task_call l s)) = length (loops s)"
  "length (loops (run_task_return l out d s)) = length (loops s)"
  "length (loops (run_task_sleep b l s)) = length (loops s)"
  by (simp_all add: loop_defs Let_def split: option.splits sum.splits outcome.splits prod.splits)

lemma step_crashed: "crashed (step a s) = crashed s"
  by (cases a) (simp_all add: schedule_task_eq worker_eq loop_steps_frame split: list.splits)

lemma execute_crashed: "crashed (execute as s) = crashed s"
  by (induction as arbitrary: s) (simp_all add: step_crashed)

lemma execute_append: "execute (as @ bs) s = execute bs (execute as s)"
proof (induction as arbitrary: s)
  case Nil
  show ?case by simp
next
  case (Cons a as)
  show ?case
  proof (cases "crashed s = None")
    case True
    with Cons show ?thesis by simp
  next
    case False
    then have "execute bs s = s" by (cases bs) auto
    with False show ?thesis by auto
  qed
qed

lemma init_not_crashed: "crashed init_elohim = None"
  by (simp add: init_elohim_def)

section \<open>The task queue\<close>

lemma step_queue:
  "map snd (delivered (step a s)) @ task_queue (step a s) =
     map snd (delivered s) @ task_queue s @ submissions [a]"
  by (cases a) (simp_all add: schedule_task_eq worker_eq loop_steps_frame split: list.splits)

lemma execute_queue:
  "crashed s = None \<Longrightarrow>
   map snd (delivered (execute as s)) @ task_queue (execute as s) =
     map snd (delivered s) @ task_queue s @ submissions as"
proof (induction as arbitrary: s)
  case Nil
  show ?case by simp
next
  case (Cons a as)
  have sub: "submissions (a # as) = submissions [a] @ submissions as"
    by (cases a) simp_all
  from Cons.prems have "crashed (step a s) = None" by (simp add: step_crashed)
  from Cons.IH [OF this] Cons.prems show ?case
    by (simp add: step_queue sub)
qed

lemma worker_drains:
  "w < length (workers s) \<Longrightarrow> alive (workers s ! w) \<Longrightarrow> crashed s = None \<Longrightarrow>
   length rs = length (task_queue s) \<Longrightarrow>
   task_queue (execute (map (Worker w) rs) s) = [] \<and>
   delivered (execute (map (Worker w) rs) s) = delivered s @ map (Pair w) (task_queue s)"
proof (induction rs arbitrary: s)
  case Nil
  then show ?case by simp
next
  case (Cons r rs)
  then obtain t q where tq: "task_queue s = t # q"
    by (cases "task_queue s") auto
  let ?s' = "step (Worker w r) s"
  from Cons.prems tq have a: "w < length (workers ?s')" "alive (workers ?s' ! w)"
    "crashed ?s' = None" "length rs = length (task_queue ?s')"
    "task_queue ?s' = q" "delivered ?s' = delivered s @ [(w, t)]"
    by (simp_all add: worker_eq)
  from Cons.IH [OF a(1-4)] a(5,6) tq Cons.prems(3) show ?case
    by simp
qed

text \<open>
  Claim C4. Whatever the threads do and in whatever order, the items handed out by
  \<^verbatim>\<open>get()\<close> so far, in the order they were handed out, followed by the items still in
  the queue, are exactly the submissions in the order they were made: the queue is
  first-in first-out, and no item is handed out twice or dropped. Each item handed
  out went to the one worker recorded with it. And whenever some dispatcher thread
  is running, its next iterations take every waiting item, in order, whether or not
  the loop threads can be started.
\<close>

theorem task_queue_fifo_exactly_once:
  "map snd (delivered (execute sched init_elohim)) @ task_queue (execute sched init_elohim)
     = submissions sched
   \<and> (w < length (workers (execute sched init_elohim))
        \<and> alive (workers (execute sched init_elohim) ! w)
        \<and> length rs = length (task_queue (execute sched init_elohim))
      \<longrightarrow> task_queue (execute (sched @ map (Worker w) rs) init_elohim) = []
        \<and> map snd (delivered (execute (sched @ map (Worker w) rs) init_elohim))
            = submissions sched)"
proof -
  let ?s = "execute sched init_elohim"
  have c: "crashed ?s = None"
    by (simp add: execute_crashed init_not_crashed)
  have inv: "map snd (delivered ?s) @ task_queue ?s = submissions sched"
    using execute_queue [OF init_not_crashed, of sched] by (simp add: init_elohim_def)
  moreover have "task_queue (execute (sched @ map (Worker w) rs) init_elohim) = []
      \<and> map snd (delivered (execute (sched @ map (Worker w) rs) init_elohim)) = submissions sched"
    if h: "w < length (workers ?s)" "alive (workers ?s ! w)" "length rs = length (task_queue ?s)"
  proof -
    have "map snd (map (Pair w) (task_queue ?s)) = task_queue ?s"
      by (simp add: comp_def)
    with worker_drains [OF h(1,2) c h(3)] inv show ?thesis
      by (simp add: execute_append)
  qed
  ultimately show ?thesis by blast
qed

text \<open>
  The two submissions of \<^verbatim>\<open>Elohim.run\<close>, both taken by the first dispatcher thread,
  the second when no further thread can be started.
\<close>

theorem task_queue_fifo_exactly_once_witness:
  "map snd (delivered (execute [Submit 3600 ''goal'' (always None), Submit 300 ''earn'' (always None)] init_elohim))
     @ task_queue (execute [Submit 3600 ''goal'' (always None), Submit 300 ''earn'' (always None)] init_elohim)
     = [(3600, ''goal''), (300, ''earn'')]
   \<and> delivered (execute ([Submit 3600 ''goal'' (always None), Submit 300 ''earn'' (always None)]
          @ map (Worker 0) [None, Some ''thread limit'']) init_elohim)
     = [(0, (3600, ''goal'')), (0, (300, ''earn''))]"
  using task_queue_fifo_exactly_once
    [of "[Submit 3600 ''goal'' (always None), Submit 300 ''earn'' (always None)]" 0
        "[None, Some ''thread limit'']"]
  by (simp add: init_elohim_def schedule_task_eq worker_eq always_def upt_rec)

section \<open>Submission\<close>

text \<open>
  Claim C6, as the code has it. \<^verbatim>\<open>schedule_task\<close> does not look at the interval: for
  every interval, zero and negative ones included, the call returns normally and the
  task is appended at the tail of the queue.
\<close>

theorem schedule_task_enqueues_any_interval:
  "fst (schedule_task iv f r s) = None
   \<and> task_queue (snd (schedule_task iv f r s)) = task_queue s @ [(iv, f)]"
  by (simp add: schedule_task_eq)

theorem schedule_task_enqueues_any_interval_witness:
  "task_queue (snd (schedule_task (- 5) ''earn'' (always None) init_elohim)) = [(- 5, ''earn'')]"
  using schedule_task_enqueues_any_interval [of "- 5" "''earn''" "always None" init_elohim]
  by (simp add: init_elohim_def)

text \<open>
  Claim C6 as stated fails: a submission with interval 0 and one with interval -1 are
  both accepted and enqueued.
\<close>

theorem schedule_task_accepts_nonpositive_interval:
  "fst (schedule_task 0 ''f'' (always None) init_elohim) = None
   \<and> task_queue (snd (schedule_task 0 ''f'' (always None) init_elohim)) = [(0, ''f'')]
   \<and> fst (schedule_task (- 1) ''g'' (always None) init_elohim) = None
   \<and> task_queue (snd (schedule_task (- 1) ''g'' (always None) init_elohim)) = [(- 1, ''g'')]"
  by (simp add: schedule_task_def start_task_scheduler_def spawn_worker_def Thread_start_def
      init_elohim_def always_def upt_rec)

text \<open>
  Claim C7. A call of \<^verbatim>\<open>schedule_task\<close> returns without raising in every state,
  whatever the environment answers to the attempts to start worker threads; and after
  any schedule, with actions that fail, loops that end and threads that cannot be
  started, no exception has reached a caller of \<^verbatim>\<open>schedule_task\<close>.
\<close>

theorem schedule_task_never_raises:
  "fst (schedule_task iv f r s) = None \<and> crashed (execute sched init_elohim) = None"
  by (simp add: schedule_task_eq execute_crashed init_not_crashed)

theorem schedule_task_never_raises_witness:
  "fst (schedule_task 300 ''earn'' (always (Some ''thread limit'')) init_elohim) = None
   \<and> crashed (execute [Submit 1 ''a'' (always None), Worker 0 (Some ''thread limit''),
        Submit 2 ''b'' (always None), Worker 1 None, CallStart 0,
        CallEnd 0 (Raises (SystemExit ''bye'')) 1] init_elohim) = None"
  using schedule_task_never_raises [of 300 "''earn''" "always (Some ''thread limit'')" init_elohim
      "[Submit 1 ''a'' (always None), Worker 0 (Some ''thread limit''),
        Submit 2 ''b'' (always None), Worker 1 None, CallStart 0,
        CallEnd 0 (Raises (SystemExit ''bye'')) 1]"]
  by simp

section \<open>Starting the pool\<close>

lemma started_count:
  "length (concat (map (\<lambda>i. case r i of None \<Rightarrow> [x] | Some m \<Rightarrow> []) js))
     = length (filter (\<lambda>i. r i = None) js)"
  by (induction js) (simp_all split: option.splits)

lemma started_alive:
  "map alive (concat (map (\<lambda>i. case r i of None \<Rightarrow> [\<lparr>cells = None, alive = True\<rparr>] | Some m \<Rightarrow> []) js))
     = replicate (length (filter (\<lambda>i. r i = None) js)) True"
  by (induction js) (simp_all split: option.splits)

lemma alive_update:
  "w < length ws \<Longrightarrow> alive (ws ! w) \<Longrightarrow> (map alive ws)[w := True] = map alive ws"
  by (simp add: list_eq_iff_nth_eq nth_list_update)

lemma step_pool:
  "scheduler_started s \<Longrightarrow>
   scheduler_started (step a s) \<and> map alive (workers (step a s)) = map alive (workers s)"
  by (cases a)
    (simp_all add: schedule_task_eq worker_eq loop_steps_frame map_update alive_update
      split: list.splits)

lemma execute_pool:
  "scheduler_started s \<Longrightarrow>
   scheduler_started (execute as s) \<and> map alive (workers (execute as s)) = map alive (workers s)"
proof (induction as arbitrary: s)
  case Nil
  then show ?case by simp
next
  case (Cons a as)
  from step_pool [OF Cons.prems, of a] Cons.IH [of "step a s"] Cons.prems show ?case
    by (cases "crashed s = None") auto
qed

text \<open>
  Claim C5, as the code has it. Before the first submission there is no dispatcher
  thread. The first \<^verbatim>\<open>schedule_task\<close> runs \<^verbatim>\<open>_start_task_scheduler\<close>, and after it and
  any further steps, submissions included, the dispatcher threads are those that this
  one call started, all running: one for each of the \<open>N\<close> attempts that the runtime
  allowed, so at most \<open>N\<close>, and exactly \<open>N\<close> when no attempt failed. No later
  submission starts another set.
\<close>

theorem pool_started_once:
  "workers (init_elohim\<lparr>max_worker_threads := N\<rparr>) = []
   \<and> map alive (workers (execute (Submit iv f r # sched) (init_elohim\<lparr>max_worker_threads := N\<rparr>)))
       = replicate (length (filter (\<lambda>i. r i = None) [0..<N])) True
   \<and> length (workers (execute (Submit iv f r # sched) (init_elohim\<lparr>max_worker_threads := N\<rparr>))) \<le> N
   \<and> length (workers (execute (Submit iv f (always None) # sched) (init_elohim\<lparr>max_worker_threads := N\<rparr>))) = N"
proof -
  let ?i = "init_elohim\<lparr>max_worker_threads := N\<rparr>"
  have first: "scheduler_started (step (Submit iv f q) ?i)"
    "map alive (workers (step (Submit iv f q) ?i))
       = replicate (length (filter (\<lambda>i. q i = None) [0..<N])) True" for q
    by (simp_all add: schedule_task_eq init_elohim_def started_alive)
  have alive: "map alive (workers (execute (Submit iv f q # sched) ?i))
       = replicate (length (filter (\<lambda>i. q i = None) [0..<N])) True" for q
    using execute_pool [of "step (Submit iv f q) ?i" sched] first [of q]
    by (simp add: init_elohim_def)
  have len: "length (workers (execute (Submit iv f q # sched) ?i))
       = length (filter (\<lambda>i. q i = None) [0..<N])" for q
    using arg_cong [OF alive, of length q] by simp
  have le: "length (filter (\<lambda>i. r i = None) [0..<N]) \<le> N"
    using length_filter_le [of "\<lambda>i. r i = None" "[0..<N]"] by simp
  have "workers ?i = []" by (simp add: init_elohim_def)
  moreover note alive [of r]
  moreover have "length (workers (execute (Submit iv f r # sched) ?i)) \<le> N"
    using len [of r] le by simp
  moreover have "length (workers (execute (Submit iv f (always None) # sched) ?i)) = N"
    using len [of "always None"] by (simp add: always_def)
  ultimately show ?thesis by blast
qed

theorem pool_started_once_witness:
  "length (workers (execute [Submit 3600 ''goal'' (always None), Submit 300 ''earn'' (always None),
       Worker 0 None, Worker 3 None] init_elohim)) = 5"
  using pool_started_once [of 5 3600 "''goal''" "always None"
      "[Submit 300 ''earn'' (always None), Worker 0 None, Worker 3 None]"]
  by (simp add: init_elohim_def)

text \<open>
  Claim C5 as stated fails where it promises \<open>N\<close> workers: when the runtime refuses the
  threads at the first submission, there are none of the 5 afterwards, also after a
  second submission at which threads could be started.
\<close>

theorem pool_without_workers:
  "length (workers (execute [Submit 3600 ''goal'' (always (Some ''thread limit'')),
       Submit 300 ''earn'' (always None)] init_elohim)) = 0
   \<and> max_worker_threads (execute [Submit 3600 ''goal'' (always (Some ''thread limit'')),
       Submit 300 ''earn'' (always None)] init_elohim) = 5"
  by (simp add: init_elohim_def schedule_task_def start_task_scheduler_def spawn_worker_def
      Thread_start_def always_def upt_rec)

lemma failed_starts:
  "\<forall>i\<in>set js. r i \<noteq> None \<Longrightarrow>
   concat (map (\<lambda>i. case r i of None \<Rightarrow> [x] | Some m \<Rightarrow> []) js) = []"
  by (induction js) (auto split: option.splits)

lemma step_no_pool:
  "scheduler_started s \<Longrightarrow> workers s = [] \<Longrightarrow> loops s = [] \<Longrightarrow>
   scheduler_started (step a s) \<and> workers (step a s) = [] \<and> loops (step a s) = []
   \<and> delivered (step a s) = delivered s \<and> error_log (step a s) = error_log s
   \<and> task_queue (step a s) = task_queue s @ submissions [a]"
  by (cases a) (simp_all add: schedule_task_eq)

lemma execute_no_pool:
  "scheduler_started s \<Longrightarrow> workers s = [] \<Longrightarrow> loops s = [] \<Longrightarrow> crashed s = None \<Longrightarrow>
   workers (execute as s) = [] \<and> loops (execute as s) = []
   \<and> delivered (execute as s) = delivered s \<and> error_log (execute as s) = error_log s
   \<and> task_queue (execute as s) = task_queue s @ submissions as"
proof (induction as arbitrary: s)
  case Nil
  then show ?case by simp
next
  case (Cons a as)
  have sub: "submissions (a # as) = submissions [a] @ submissions as"
    by (cases a) simp_all
  from step_no_pool [OF Cons.prems(1-3), of a] Cons.prems(4)
  have st: "scheduler_started (step a s)" "workers (step a s) = []" "loops (step a s) = []"
    "crashed (step a s) = None" "delivered (step a s) = delivered s"
    "error_log (step a s) = error_log s" "task_queue (step a s) = task_queue s @ submissions [a]"
    by (simp_all add: step_crashed)
  from Cons.IH [OF st(1-4)] st(5-7) Cons.prems(4) show ?case
    by (simp add: sub)
qed

text \<open>
  Claim C10. When every attempt to start a worker thread fails at the first
  submission, the flag is set all the same, and after any further steps, whatever the
  runtime would answer then: there is no dispatcher thread and no loop, nothing has
  been handed out, every submitted task is in the queue in submission order, no
  exception has reached a caller, and nothing has been logged beyond the records of
  the first call.
\<close>

theorem failed_pool_start_never_retried:
  assumes "\<forall>i<max_worker_threads init_elohim. r i \<noteq> None"
  shows "scheduler_started (execute (Submit iv f r # sched) init_elohim)
   \<and> workers (execute (Submit iv f r # sched) init_elohim) = []
   \<and> loops (execute (Submit iv f r # sched) init_elohim) = []
   \<and> delivered (execute (Submit iv f r # sched) init_elohim) = []
   \<and> task_queue (execute (Submit iv f r # sched) init_elohim) = (iv, f) # submissions sched
   \<and> crashed (execute (Submit iv f r # sched) init_elohim) = None
   \<and> error_log (execute (Submit iv f r # sched) init_elohim)
       = error_log (step (Submit iv f r) init_elohim)"
proof -
  let ?s = "step (Submit iv f r) init_elohim"
  from assms have "\<forall>i\<in>set [0..<max_worker_threads init_elohim]. r i \<noteq> None"
    by simp
  from failed_starts [OF this]
  have s: "scheduler_started ?s" "workers ?s = []" "loops ?s = []" "crashed ?s = None"
    "delivered ?s = []" "task_queue ?s = [(iv, f)]"
    by (simp_all add: schedule_task_eq init_elohim_def)
  have e: "execute (Submit iv f r # sched) init_elohim = execute sched ?s"
    by (simp add: init_not_crashed)
  from execute_no_pool [OF s(1-4), of sched] execute_pool [OF s(1), of sched] s(5,6)
    execute_crashed [of sched ?s] s(4)
  show ?thesis unfolding e by simp
qed

theorem failed_pool_start_never_retried_witness:
  "task_queue (execute [Submit 3600 ''goal'' (always (Some ''thread limit'')),
       Submit 300 ''earn'' (always None), Worker 0 None, CallStart 0] init_elohim)
     = [(3600, ''goal''), (300, ''earn'')]
   \<and> workers (execute [Submit 3600 ''goal'' (always (Some ''thread limit'')),
       Submit 300 ''earn'' (always None), Worker 0 None, CallStart 0] init_elohim) = []"
  using failed_pool_start_never_retried [of "always (Some ''thread limit'')" 3600 "''goal''"
      "[Submit 300 ''earn'' (always None), Worker 0 None, CallStart 0]"]
  by (simp add: always_def)

section \<open>Dispatching\<close>

text \<open>
  Claim C8. When a dispatcher thread has taken a task and the runtime refuses the
  thread for its loop, \<^verbatim>\<open>worker\<close> does not raise: the failure is logged, no loop is
  added and the task is not put back on the queue, the dispatcher thread is still
  running, and its next iteration takes the next task of the queue.
\<close>

theorem spawn_failure_drops_loop:
  assumes "w < length (workers s)" and "alive (workers s ! w)" and "task_queue s = t # q"
  shows "fst (worker w (Some m) s) = None
   \<and> step (Worker w (Some m)) s =
       s\<lparr>task_queue := q,
         workers := (workers s)[w := (workers s ! w)\<lparr>cells := Some t\<rparr>],
         delivered := delivered s @ [(w, t)],
         error_log := error_log s @ [''Thread limit reached: '' @ m]\<rparr>
   \<and> loops (step (Worker w (Some m)) s) = loops s
   \<and> alive (workers (step (Worker w (Some m)) s) ! w)
   \<and> task_queue (step (Worker w res) (step (Worker w (Some m)) s)) = tl q
   \<and> delivered (step (Worker w res) (step (Worker w (Some m)) s))
       = delivered s @ (w, t) # map (Pair w) (take 1 q)"
  using assms by (cases q) (simp_all add: worker_eq)

theorem spawn_failure_drops_loop_witness:
  "loops (step (Worker 0 (Some ''thread limit''))
      (execute [Submit 3600 ''goal'' (always None), Submit 300 ''earn'' (always None)] init_elohim)) = []
   \<and> delivered (step (Worker 0 None) (step (Worker 0 (Some ''thread limit''))
      (execute [Submit 3600 ''goal'' (always None), Submit 300 ''earn'' (always None)] init_elohim)))
     = [(0, (3600, ''goal'')), (0, (300, ''earn''))]
   \<and> error_log (step (Worker 0 (Some ''thread limit''))
      (execute [Submit 3600 ''goal'' (always None), Submit 300 ''earn'' (always None)] init_elohim))
     = [''Thread limit reached: thread limit'']"
  using spawn_failure_drops_loop [of 0
      "execute [Submit 3600 ''goal'' (always None), Submit 300 ''earn'' (always None)] init_elohim"
      "(3600, ''goal'')" "[(300, ''earn'')]" "''thread limit''" None]
  by (simp add: init_elohim_def schedule_task_eq worker_eq always_def upt_rec)

text \<open>
  Claim C9. In any state, whatever the existing loops are doing (in particular in the
  middle of a call that has not returned), a running dispatcher thread with a task
  waiting takes it and starts a loop thread for it, whose history is empty: the call
  of the action is a step of the loop thread, not of the dispatcher. The step changes
  no existing loop, the dispatcher is ready for the next task at once, and the first
  call of the new loop starts at time 0 of that loop.
\<close>

theorem dispatcher_never_runs_action:
  assumes "w < length (workers s)" and "alive (workers s ! w)" and "task_queue s = t # q"
  shows "loops (step (Worker w None) s)
       = loops s @ [\<lparr>owner = w, pc = AtCall, clock = 0, history = []\<rparr>]
   \<and> take (length (loops s)) (loops (step (Worker w res) s)) = loops s
   \<and> task_queue (step (Worker w res) s) = q
   \<and> alive (workers (step (Worker w res) s) ! w)
   \<and> task_queue (step (Worker w res') (step (Worker w res) s)) = tl q
   \<and> history (loops (step (CallStart (length (loops s))) (step (Worker w None) s))
        ! length (loops s)) = [Invoked (snd t) 0]"
proof -
  have "history (loops (step (CallStart (length (loops s))) (step (Worker w None) s))
        ! length (loops s)) = [Invoked (snd t) 0]"
    using assms by (cases t) (simp add: worker_eq loop_defs nth_append)
  moreover have "task_queue (step (Worker w res') (step (Worker w res) s)) = tl q"
    using assms by (cases q) (simp_all add: worker_eq)
  ultimately show ?thesis
    using assms by (simp add: worker_eq)
qed

text \<open>A slow task is in its first call when a second task is submitted and dispatched.\<close>

theorem dispatcher_never_runs_action_witness:
  "pc (loops (execute [Submit 10 ''slow'' (always None), Worker 0 None, CallStart 0,
        Submit 1 ''fast'' (always None)] init_elohim) ! 0) = InCall
   \<and> loops (execute [Submit 10 ''slow'' (always None), Worker 0 None, CallStart 0,
        Submit 1 ''fast'' (always None), Worker 1 None, CallStart 1] init_elohim)
     = [\<lparr>owner = 0, pc = InCall, clock = 0, history = [Invoked ''slow'' 0]\<rparr>,
        \<lparr>owner = 1, pc = InCall, clock = 0, history = [Invoked ''fast'' 0]\<rparr>]"
  using dispatcher_never_runs_action [of 1
      "execute [Submit 10 ''slow'' (always None), Worker 0 None, CallStart 0,
        Submit 1 ''fast'' (always None)] init_elohim" "(1, ''fast'')" "[]" None None]
  by (simp add: init_elohim_def schedule_task_eq worker_eq loop_defs always_def upt_rec)

section \<open>The repeating loop\<close>

text \<open>
  Claim C1, evaluated on the two submissions of \<^verbatim>\<open>Elohim.run\<close> when the same
  dispatcher thread takes both. The loop started for \<^verbatim>\<open>(3600, goal)\<close> calls \<^verbatim>\<open>goal\<close>
  and sleeps 3600; the dispatcher then takes \<^verbatim>\<open>(300, earn)\<close>, which rebinds the cells
  that both closures share, and from its next iteration on the first loop calls
  \<^verbatim>\<open>earn\<close> and sleeps 300, as the second loop does.
\<close>

theorem run_task_follows_later_dequeue:
  "loops (execute [Submit 3600 ''goal'' (always None), Worker 0 None,
        CallStart 0, CallEnd 0 Returns 0, Sleep 0,
        Submit 300 ''earn'' (always None), Worker 0 None,
        CallStart 0, CallEnd 0 Returns 0, Sleep 0,
        CallStart 1, CallEnd 1 Returns 0, Sleep 1] init_elohim)
     = [\<lparr>owner = 0, pc = AtCall, clock = 3900,
          history = [Invoked ''goal'' 0, Slept 3600, Invoked ''earn'' 3600, Slept 300]\<rparr>,
        \<lparr>owner = 0, pc = AtCall, clock = 300,
          history = [Invoked ''earn'' 0, Slept 300]\<rparr>]"
  by (simp add: init_elohim_def schedule_task_def start_task_scheduler_def spawn_worker_def
      Thread_start_def worker_def loop_defs always_def upt_rec)



























end
